theory Spec2Isabelle
  imports Complex_Main
begin

section \<open>Values\<close>

text \<open>
  The detection service moves values between three shapes: the typed request models
  of \<^verbatim>\<open>main.py\<close> (\<^verbatim>\<open>BoundingBox\<close>, \<^verbatim>\<open>ObjectInfo\<close>, \<^verbatim>\<open>DetectionCreate\<close>), the JSON
  documents on the wire and in the two \<^verbatim>\<open>JSON\<close> columns of the table, and the rows of
  \<^verbatim>\<open>models.Detection\<close>. Python floats are only copied by this code, never computed
  with, so they are modelled as reals. A Python dict with string keys is an
  association list read with \<open>map_of\<close>.
\<close>

datatype json =
    JNull
  | JBool bool
  | JNum real
  | JStr string
  | JList "json list"
  | JObj "(string \<times> json) list"

text \<open>Python truth value of a decoded JSON value (\<^verbatim>\<open>x if d.objects else None\<close>).\<close>

fun truthy :: "json \<Rightarrow> bool" where
  "truthy JNull = False"
| "truthy (JBool b) = b"
| "truthy (JNum r) = (r \<noteq> 0)"
| "truthy (JStr s) = (s \<noteq> [])"
| "truthy (JList xs) = (xs \<noteq> [])"
| "truthy (JObj kvs) = (kvs \<noteq> [])"

text \<open>
  Exceptions carry the text that \<^verbatim>\<open>str(e)\<close> yields. The texts of the library's
  validation and type errors are abbreviated to the name of the offending field.
\<close>

datatype exn =
    StoreFailure string
  | ValidationError string
  | TypeError string

fun str_exn :: "exn \<Rightarrow> string" where
  "str_exn (StoreFailure m) = m"
| "str_exn (ValidationError m) = m"
| "str_exn (TypeError m) = m"

text \<open>A list comprehension whose body may raise: the first exception ends it.\<close>

fun traverse :: "('a \<Rightarrow> exn + 'b) \<Rightarrow> 'a list \<Rightarrow> exn + 'b list" where
  "traverse f [] = Inr []"
| "traverse f (a # as) =
     (case f a of
        Inl e \<Rightarrow> Inl e
      | Inr b \<Rightarrow> (case traverse f as of Inl e \<Rightarrow> Inl e | Inr bs \<Rightarrow> Inr (b # bs)))"

section \<open>The request models\<close>

record BoundingBox =
  bb_x :: real
  bb_y :: real
  bb_width :: real
  bb_height :: real

record ObjectInfo =
  class_name :: string
  obj_bbox :: "real list"

record DetectionCreate =
  object_class :: string
  confidence :: real
  bbox :: BoundingBox
  objects :: "ObjectInfo list option"
  gemini_analysis :: string

text \<open>
  The field validators of the model library are not part of this repository. What
  every version of them does is fixed here: a \<^verbatim>\<open>str\<close> field takes a JSON string as
  it is (also the empty one: the fields carry no length constraint), a \<^verbatim>\<open>float\<close>
  field takes a JSON number as it is, and neither takes null, an array or an object.
  Whether a scalar of the other kind is converted (a number given for a string, a
  numeric string or a boolean given for a number) depends on the library's version and
  mode, so those four conversions are parameters. So is the conversion of a value
  that is not a JSON object where a model is expected: the version this code is
  written against tries \<^verbatim>\<open>dict(value)\<close>, which turns an array of pairs into keyword
  arguments, and a later one refuses every such value.
\<close>

record pydantic =
  str_of_num :: "real \<Rightarrow> string option"
  str_of_bool :: "bool \<Rightarrow> string option"
  float_of_str :: "string \<Rightarrow> real option"
  float_of_bool :: "bool \<Rightarrow> real option"
  dict_of :: "json \<Rightarrow> (string \<times> json) list option"

fun validate_str :: "pydantic \<Rightarrow> json \<Rightarrow> string option" where
  "validate_str P (JStr s) = Some s"
| "validate_str P (JNum r) = str_of_num P r"
| "validate_str P (JBool b) = str_of_bool P b"
| "validate_str P _ = None"

fun validate_float :: "pydantic \<Rightarrow> json \<Rightarrow> real option" where
  "validate_float P (JNum r) = Some r"
| "validate_float P (JStr s) = float_of_str P s"
| "validate_float P (JBool b) = float_of_bool P b"
| "validate_float P _ = None"

text \<open>\<^verbatim>\<open>List[float]\<close>: an array of any length, every element a valid float.\<close>

fun validate_float_list :: "pydantic \<Rightarrow> json \<Rightarrow> real list option" where
  "validate_float_list P (JList xs) = those (map (validate_float P) xs)"
| "validate_float_list P _ = None"

text \<open>
  A required field read from keyword arguments or from a JSON object: it fails when
  the key is absent and when the value does not validate.
\<close>

definition field :: "(string \<times> json) list \<Rightarrow> string \<Rightarrow> (json \<Rightarrow> 'a option) \<Rightarrow> exn + 'a" where
  "field kvs k v =
     (case map_of kvs k of
        None \<Rightarrow> Inl (ValidationError k)
      | Some j \<Rightarrow> (case v j of None \<Rightarrow> Inl (ValidationError k) | Some a \<Rightarrow> Inr a))"

text \<open>\<^verbatim>\<open>BoundingBox(**kwargs)\<close>: four required floats, other keys ignored.\<close>

definition BoundingBox_init :: "pydantic \<Rightarrow> (string \<times> json) list \<Rightarrow> exn + BoundingBox" where
  "BoundingBox_init P kvs =
     (case field kvs ''x'' (validate_float P) of Inl e \<Rightarrow> Inl e | Inr vx \<Rightarrow>
     (case field kvs ''y'' (validate_float P) of Inl e \<Rightarrow> Inl e | Inr vy \<Rightarrow>
     (case field kvs ''width'' (validate_float P) of Inl e \<Rightarrow> Inl e | Inr vw \<Rightarrow>
     (case field kvs ''height'' (validate_float P) of Inl e \<Rightarrow> Inl e | Inr vh \<Rightarrow>
        Inr \<lparr>bb_x = vx, bb_y = vy, bb_width = vw, bb_height = vh\<rparr>))))"

text \<open>\<^verbatim>\<open>detection.bbox.dict()\<close>.\<close>

definition BoundingBox_dict :: "BoundingBox \<Rightarrow> (string \<times> json) list" where
  "BoundingBox_dict b =
     [(''x'', JNum (bb_x b)), (''y'', JNum (bb_y b)),
      (''width'', JNum (bb_width b)), (''height'', JNum (bb_height b))]"

text \<open>
  \<^verbatim>\<open>ObjectInfo(**kwargs)\<close>: \<^verbatim>\<open>class_name\<close> is declared with \<^verbatim>\<open>alias='class'\<close> and the
  model does not allow population by field name, so the name is read under the key
  \<^verbatim>\<open>class\<close> only.
\<close>

definition ObjectInfo_init :: "pydantic \<Rightarrow> (string \<times> json) list \<Rightarrow> exn + ObjectInfo" where
  "ObjectInfo_init P kvs =
     (case field kvs ''class'' (validate_str P) of Inl e \<Rightarrow> Inl e | Inr c \<Rightarrow>
     (case field kvs ''bbox'' (validate_float_list P) of Inl e \<Rightarrow> Inl e | Inr b \<Rightarrow>
        Inr \<lparr>class_name = c, obj_bbox = b\<rparr>))"

text \<open>\<^verbatim>\<open>obj.dict(by_alias=True)\<close>.\<close>

definition ObjectInfo_dict_by_alias :: "ObjectInfo \<Rightarrow> (string \<times> json) list" where
  "ObjectInfo_dict_by_alias obj =
     [(''class'', JStr (class_name obj)), (''bbox'', JList (map JNum (obj_bbox obj)))]"

text \<open>
  The body of a response declared \<^verbatim>\<open>response_model=DetectionCreate\<close>: the framework
  emits the model's five fields, by alias, with an unset \<^verbatim>\<open>objects\<close> as null.
\<close>

definition DetectionCreate_json :: "DetectionCreate \<Rightarrow> json" where
  "DetectionCreate_json d =
     JObj [(''object_class'', JStr (object_class d)),
           (''confidence'', JNum (confidence d)),
           (''bbox'', JObj (BoundingBox_dict (bbox d))),
           (''objects'',
              (case objects d of
                 None \<Rightarrow> JNull
               | Some os \<Rightarrow> JList (map (\<lambda>obj. JObj (ObjectInfo_dict_by_alias obj)) os))),
           (''gemini_analysis'', JStr (gemini_analysis d))]"

text \<open>
  A value given where a model is expected: a JSON object gives its members as keyword
  arguments; null, a boolean and a number are refused; for a string or an array the
  library's conversion decides.
\<close>

definition as_mapping :: "pydantic \<Rightarrow> json \<Rightarrow> (string \<times> json) list option" where
  "as_mapping P j =
     (case j of
        JObj kvs \<Rightarrow> Some kvs
      | JNull \<Rightarrow> None
      | JBool b \<Rightarrow> None
      | JNum r \<Rightarrow> None
      | _ \<Rightarrow> dict_of P j)"

definition validate_model :: "pydantic \<Rightarrow> ((string \<times> json) list \<Rightarrow> exn + 'a) \<Rightarrow> string \<Rightarrow> json \<Rightarrow> exn + 'a" where
  "validate_model P init k j =
     (case as_mapping P j of None \<Rightarrow> Inl (ValidationError k) | Some kvs \<Rightarrow> init kvs)"

text \<open>
  The request body of \<^verbatim>\<open>POST /detections/\<close>, validated against \<^verbatim>\<open>DetectionCreate\<close>:
  four required fields, and \<^verbatim>\<open>objects\<close>, which may be missing or null and is
  otherwise an array of \<^verbatim>\<open>ObjectInfo\<close>.
\<close>

definition validate_bbox :: "pydantic \<Rightarrow> (string \<times> json) list \<Rightarrow> exn + BoundingBox" where
  "validate_bbox P kvs =
     (case map_of kvs ''bbox'' of
        None \<Rightarrow> Inl (ValidationError ''bbox'')
      | Some j \<Rightarrow> validate_model P (BoundingBox_init P) ''bbox'' j)"

definition validate_objects :: "pydantic \<Rightarrow> (string \<times> json) list \<Rightarrow> exn + ObjectInfo list option" where
  "validate_objects P kvs =
     (case map_of kvs ''objects'' of
        None \<Rightarrow> Inr None
      | Some JNull \<Rightarrow> Inr None
      | Some (JList xs) \<Rightarrow>
          (case traverse (validate_model P (ObjectInfo_init P) ''objects'') xs of
             Inl e \<Rightarrow> Inl e
           | Inr os \<Rightarrow> Inr (Some os))
      | Some _ \<Rightarrow> Inl (ValidationError ''objects''))"

definition DetectionCreate_init :: "pydantic \<Rightarrow> (string \<times> json) list \<Rightarrow> exn + DetectionCreate" where
  "DetectionCreate_init P kvs =
     (case field kvs ''object_class'' (validate_str P) of Inl e \<Rightarrow> Inl e | Inr oc \<Rightarrow>
     (case field kvs ''confidence'' (validate_float P) of Inl e \<Rightarrow> Inl e | Inr c \<Rightarrow>
     (case validate_bbox P kvs of Inl e \<Rightarrow> Inl e | Inr b \<Rightarrow>
     (case validate_objects P kvs of Inl e \<Rightarrow> Inl e | Inr os \<Rightarrow>
     (case field kvs ''gemini_analysis'' (validate_str P) of Inl e \<Rightarrow> Inl e | Inr ga \<Rightarrow>
        Inr \<lparr>object_class = oc, confidence = c, bbox = b, objects = os,
             gemini_analysis = ga\<rparr>)))))"

definition DetectionCreate_parse :: "pydantic \<Rightarrow> json \<Rightarrow> exn + DetectionCreate" where
  "DetectionCreate_parse P body = validate_model P (DetectionCreate_init P) ''body'' body"

section \<open>The table and the session\<close>

text \<open>
  A row of \<^verbatim>\<open>models.Detection\<close>. The primary key and the timestamp are unset on a new
  object and filled in when it is inserted. The string and float columns are written
  by \<^verbatim>\<open>create_detection\<close> only, which always supplies them. The timestamp is a
  number of clock ticks.
\<close>

record Detection =
  det_id :: "int option"
  det_timestamp :: "int option"
  det_object_class :: string
  det_confidence :: real
  det_bbox :: json
  det_objects :: json
  det_gemini_analysis :: string

text \<open>
  The session of one request: the table (rows in primary-key order, which is the
  order of insertion), the objects added and not yet inserted, and the changes of
  \<^verbatim>\<open>gemini_analysis\<close> made to loaded objects and not yet written, each with the primary
  key of its object.
\<close>

record session =
  table :: "Detection list"
  pending :: "Detection list"
  dirty :: "(int option \<times> string) list"

text \<open>
  Modelled from the spec: \<^verbatim>\<open>database.get_db\<close>, which is not among the sources. Each
  request gets a scoped session of its own over the stored rows; what a request leaves
  uncommitted is dropped when the session is released.
\<close>

definition get_db :: "Detection list \<Rightarrow> session" where
  "get_db rows = \<lparr>table = rows, pending = [], dirty = []\<rparr>"

text \<open>
  What the store does to one request: the clock read by the \<^verbatim>\<open>timestamp\<close> default,
  and for each call on the session whether it raises, and with which message.
\<close>

record env =
  utcnow :: int
  add_raises :: "string option"
  commit_raises :: "string option"
  refresh_raises :: "string option"
  query_raises :: "string option"

fun max_id :: "Detection list \<Rightarrow> int" where
  "max_id [] = 0"
| "max_id (r # rs) = max (case det_id r of None \<Rightarrow> 0 | Some i \<Rightarrow> i) (max_id rs)"

text \<open>
  The insert of one new object: an unset integer primary key becomes the greatest key
  of the table plus one, an unset timestamp becomes the current time.
\<close>

definition insert_row :: "int \<Rightarrow> Detection list \<Rightarrow> Detection \<Rightarrow> Detection list" where
  "insert_row now rows obj =
     rows @ [obj\<lparr>det_id := (case det_id obj of None \<Rightarrow> Some (max_id rows + 1) | Some i \<Rightarrow> Some i),
                 det_timestamp := (case det_timestamp obj of None \<Rightarrow> Some now | Some t \<Rightarrow> Some t)\<rparr>]"

text \<open>\<^verbatim>\<open>UPDATE detections SET gemini_analysis = ? WHERE id = ?\<close>.\<close>

definition update_row :: "Detection list \<Rightarrow> int option \<times> string \<Rightarrow> Detection list" where
  "update_row rows ch =
     map (\<lambda>r. if det_id r = fst ch then r\<lparr>det_gemini_analysis := snd ch\<rparr> else r) rows"

definition db_add :: "env \<Rightarrow> Detection \<Rightarrow> session \<Rightarrow> exn + session" where
  "db_add E obj db =
     (case add_raises E of
        Some m \<Rightarrow> Inl (StoreFailure m)
      | None \<Rightarrow> Inr (db\<lparr>pending := pending db @ [obj]\<rparr>))"

text \<open>A commit writes everything or, when it raises, nothing.\<close>

definition db_commit :: "env \<Rightarrow> session \<Rightarrow> exn + session" where
  "db_commit E db =
     (case commit_raises E of
        Some m \<Rightarrow> Inl (StoreFailure m)
      | None \<Rightarrow>
          Inr \<lparr>table = foldl update_row (foldl (insert_row (utcnow E)) (table db) (pending db)) (dirty db),
               pending = [], dirty = []\<rparr>)"

text \<open>A rollback drops what is not committed; it is taken not to raise.\<close>

definition db_rollback :: "session \<Rightarrow> session" where
  "db_rollback db = db\<lparr>pending := [], dirty := []\<rparr>"

text \<open>\<^verbatim>\<open>db.refresh(obj)\<close> reads the row again; what it reads is not used.\<close>

definition db_refresh :: "env \<Rightarrow> Detection \<Rightarrow> session \<Rightarrow> exn + session" where
  "db_refresh E obj db =
     (case refresh_raises E of Some m \<Rightarrow> Inl (StoreFailure m) | None \<Rightarrow> Inr db)"

text \<open>
  \<^verbatim>\<open>db.query(Detection).offset(skip).limit(limit).all()\<close>. A negative offset counts as
  zero and a negative limit as no limit; a store that refuses them raises, which
  \<open>query_raises\<close> covers.
\<close>

definition db_query_page :: "env \<Rightarrow> int \<Rightarrow> int \<Rightarrow> session \<Rightarrow> exn + Detection list" where
  "db_query_page E skip limit db =
     (case query_raises E of
        Some m \<Rightarrow> Inl (StoreFailure m)
      | None \<Rightarrow>
          (let rest = drop (nat skip) (table db)
           in Inr (if limit < 0 then rest else take (nat limit) rest)))"

text \<open>\<^verbatim>\<open>db.query(Detection).filter(Detection.id == detection_id).first()\<close>.\<close>

definition db_query_first :: "env \<Rightarrow> int \<Rightarrow> session \<Rightarrow> exn + Detection option" where
  "db_query_first E detection_id db =
     (case query_raises E of
        Some m \<Rightarrow> Inl (StoreFailure m)
      | None \<Rightarrow> Inr (find (\<lambda>r. det_id r = Some detection_id) (table db)))"

section \<open>The handlers\<close>

text \<open>
  A handler returns a value, raises \<^verbatim>\<open>HTTPException\<close> with a status and a detail, or
  lets another exception escape.
\<close>

datatype 'a response =
    Ok 'a
  | HTTPException nat string
  | Unhandled exn

text \<open>The column values that \<^verbatim>\<open>create_detection\<close> passes to \<^verbatim>\<open>Detection(...)\<close>.\<close>

definition objects_column :: "ObjectInfo list option \<Rightarrow> json" where
  "objects_column os =
     (case os of
        None \<Rightarrow> JNull
      | Some xs \<Rightarrow>
          if xs \<noteq> [] then JList (map (\<lambda>obj. JObj (ObjectInfo_dict_by_alias obj)) xs)
          else JNull)"

definition new_Detection :: "DetectionCreate \<Rightarrow> Detection" where
  "new_Detection detection =
     \<lparr>det_id = None, det_timestamp = None,
      det_object_class = object_class detection,
      det_confidence = confidence detection,
      det_bbox = JObj (BoundingBox_dict (bbox detection)),
      det_objects = objects_column (objects detection),
      det_gemini_analysis = gemini_analysis detection\<rparr>"

definition create_detection :: "env \<Rightarrow> DetectionCreate \<Rightarrow> session \<Rightarrow> DetectionCreate response \<times> session" where
  "create_detection E detection db =
     (let db_detection = new_Detection detection in
     (case db_add E db_detection db of
        Inl e \<Rightarrow> (HTTPException 500 (str_exn e), db_rollback db)
      | Inr db1 \<Rightarrow>
          (case db_commit E db1 of
             Inl e \<Rightarrow> (HTTPException 500 (str_exn e), db_rollback db1)
           | Inr db2 \<Rightarrow>
               (case db_refresh E db_detection db2 of
                  Inl e \<Rightarrow> (HTTPException 500 (str_exn e), db_rollback db2)
                | Inr db3 \<Rightarrow> (Ok detection, db3)))))"

text \<open>\<^verbatim>\<open>**v\<close>: the value must be a mapping.\<close>

definition kwargs :: "json \<Rightarrow> exn + (string \<times> json) list" where
  "kwargs j = (case j of JObj kvs \<Rightarrow> Inr kvs | _ \<Rightarrow> Inl (TypeError ''argument after ** must be a mapping''))"

text \<open>
  \<^verbatim>\<open>for obj in d.objects\<close>: an array yields its elements, an object its keys, a string
  its characters; a number or a boolean is not iterable.
\<close>

definition iterate :: "json \<Rightarrow> exn + json list" where
  "iterate j =
     (case j of
        JList xs \<Rightarrow> Inr xs
      | JObj kvs \<Rightarrow> Inr (map (\<lambda>kv. JStr (fst kv)) kvs)
      | JStr s \<Rightarrow> Inr (map (\<lambda>c. JStr [c]) s)
      | _ \<Rightarrow> Inl (TypeError ''object is not iterable''))"

definition read_objects :: "pydantic \<Rightarrow> json \<Rightarrow> exn + ObjectInfo list option" where
  "read_objects P j =
     (if truthy j then
        (case iterate j of
           Inl e \<Rightarrow> Inl e
         | Inr items \<Rightarrow>
             (case traverse (\<lambda>obj. (case kwargs obj of Inl e \<Rightarrow> Inl e
                                     | Inr kvs \<Rightarrow> ObjectInfo_init P kvs)) items of
                Inl e \<Rightarrow> Inl e
              | Inr os \<Rightarrow> Inr (Some os)))
      else Inr None)"

text \<open>The element of the comprehension in \<^verbatim>\<open>get_detections\<close>, for one row.\<close>

definition read_Detection :: "pydantic \<Rightarrow> Detection \<Rightarrow> exn + DetectionCreate" where
  "read_Detection P d =
     (case kwargs (det_bbox d) of Inl e \<Rightarrow> Inl e | Inr kvs \<Rightarrow>
     (case BoundingBox_init P kvs of Inl e \<Rightarrow> Inl e | Inr b \<Rightarrow>
     (case read_objects P (det_objects d) of Inl e \<Rightarrow> Inl e | Inr os \<Rightarrow>
        Inr \<lparr>object_class = det_object_class d, confidence = det_confidence d,
             bbox = b, objects = os, gemini_analysis = det_gemini_analysis d\<rparr>)))"

definition get_detections :: "pydantic \<Rightarrow> env \<Rightarrow> int \<Rightarrow> int \<Rightarrow> session \<Rightarrow> DetectionCreate list response \<times> session" where
  "get_detections P E skip limit db =
     (case db_query_page E skip limit db of
        Inl e \<Rightarrow> (HTTPException 500 (str_exn e), db)
      | Inr detections \<Rightarrow>
          (case traverse (read_Detection P) detections of
             Inl e \<Rightarrow> (HTTPException 500 (str_exn e), db)
           | Inr ds \<Rightarrow> (Ok ds, db)))"

definition update_gemini_analysis :: "env \<Rightarrow> int \<Rightarrow> string \<Rightarrow> session \<Rightarrow> (string \<times> string) list response \<times> session" where
  "update_gemini_analysis E detection_id analysis db =
     (case db_query_first E detection_id db of
        Inl e \<Rightarrow> (Unhandled e, db)
      | Inr None \<Rightarrow> (HTTPException 404 ''Detection not found'', db)
      | Inr (Some detection) \<Rightarrow>
          (let db1 = db\<lparr>dirty := dirty db @ [(det_id detection, analysis)]\<rparr> in
          (case db_commit E db1 of
             Inl e \<Rightarrow> (Unhandled e, db1)
           | Inr db2 \<Rightarrow> (Ok [(''status'', ''success'')], db2))))"

text \<open>
  \<^verbatim>\<open>POST /detections/\<close> as a client sees it: the framework validates the body
  against \<^verbatim>\<open>DetectionCreate\<close> and answers 422 without calling the handler when it
  does not validate.
\<close>

definition post_detections :: "pydantic \<Rightarrow> env \<Rightarrow> json \<Rightarrow> session \<Rightarrow> DetectionCreate response \<times> session" where
  "post_detections P E body db =
     (case DetectionCreate_parse P body of
        Inl e \<Rightarrow> (HTTPException 422 (str_exn e), db)
      | Inr detection \<Rightarrow> create_detection E detection db)"

section \<open>Stored shapes, reachable tables, sample values\<close>

text \<open>
  The shape of a stored \<^verbatim>\<open>bbox\<close>: a mapping with exactly the keys \<^verbatim>\<open>x\<close>, \<^verbatim>\<open>y\<close>,
  \<^verbatim>\<open>width\<close> and \<^verbatim>\<open>height\<close>, each bound to a number.
\<close>

definition has_float :: "(string \<times> json) list \<Rightarrow> string \<Rightarrow> bool" where
  "has_float kvs k = (case map_of kvs k of Some (JNum r) \<Rightarrow> True | _ \<Rightarrow> False)"

definition bbox_shape :: "json \<Rightarrow> bool" where
  "bbox_shape j =
     (case j of
        JObj kvs \<Rightarrow>
          distinct (map fst kvs) \<and>
          set (map fst kvs) = {''x'', ''y'', ''width'', ''height''} \<and>
          has_float kvs ''x'' \<and> has_float kvs ''y'' \<and>
          has_float kvs ''width'' \<and> has_float kvs ''height''
      | _ \<Rightarrow> False)"

text \<open>
  The shape of a stored \<^verbatim>\<open>objects\<close>: null, or an array of mappings that bind
  \<^verbatim>\<open>class\<close> to a string and \<^verbatim>\<open>bbox\<close> to an array of numbers.
\<close>

definition is_num :: "json \<Rightarrow> bool" where
  "is_num j = (case j of JNum r \<Rightarrow> True | _ \<Rightarrow> False)"

definition object_shape :: "json \<Rightarrow> bool" where
  "object_shape j =
     (case j of
        JObj kvs \<Rightarrow>
          (case map_of kvs ''class'' of Some (JStr s) \<Rightarrow> True | _ \<Rightarrow> False) \<and>
          (case map_of kvs ''bbox'' of Some (JList xs) \<Rightarrow> list_all is_num xs | _ \<Rightarrow> False)
      | _ \<Rightarrow> False)"

definition objects_shape :: "json \<Rightarrow> bool" where
  "objects_shape j =
     (case j of JNull \<Rightarrow> True | JList xs \<Rightarrow> list_all object_shape xs | _ \<Rightarrow> False)"

definition row_shape :: "Detection \<Rightarrow> bool" where
  "row_shape r = (bbox_shape (det_bbox r) \<and> objects_shape (det_objects r))"

text \<open>
  The tables that requests can produce from the empty table: every call of
  \<^verbatim>\<open>create_detection\<close> and of \<^verbatim>\<open>update_gemini_analysis\<close>, on any input and whatever
  the store does to it, each in a session of its own.
\<close>

inductive reachable :: "Detection list \<Rightarrow> bool" where
  empty: "reachable []"
| created: "reachable rows \<Longrightarrow> reachable (table (snd (create_detection E d (get_db rows))))"
| updated: "reachable rows \<Longrightarrow> reachable (table (snd (update_gemini_analysis E i a (get_db rows))))"

text \<open>
  Values that no version of the library takes for a string or a float field.
\<close>

definition not_scalar :: "json \<Rightarrow> bool" where
  "not_scalar j = (case j of JNull \<Rightarrow> True | JList xs \<Rightarrow> True | JObj kvs \<Rightarrow> True | _ \<Rightarrow> False)"

text \<open>
  Malformed request bodies. A string field is bad when it is missing or its value is
  not accepted as a string, a float field when it is missing or its value is not
  accepted as a float. A \<^verbatim>\<open>bbox\<close> is bad when it is missing, is not accepted as a
  mapping, or has a bad \<^verbatim>\<open>x\<close>, \<^verbatim>\<open>y\<close>, \<^verbatim>\<open>width\<close> or \<^verbatim>\<open>height\<close>. An element of
  \<^verbatim>\<open>objects\<close> is bad when it is not accepted as a mapping, has a bad \<^verbatim>\<open>class\<close>, or
  has a \<^verbatim>\<open>bbox\<close> that is missing, is not an array, or holds a value not accepted as a
  float. An \<^verbatim>\<open>objects\<close> is bad when it is neither null nor an array, or has a bad
  element. A body is malformed when it is not accepted as a mapping or has a bad field.
  Nothing here asks a string to be non-empty or an array to have four elements.
\<close>

definition bad_str :: "pydantic \<Rightarrow> (string \<times> json) list \<Rightarrow> string \<Rightarrow> bool" where
  "bad_str P kvs k = (case map_of kvs k of None \<Rightarrow> True | Some j \<Rightarrow> validate_str P j = None)"

definition bad_float :: "pydantic \<Rightarrow> (string \<times> json) list \<Rightarrow> string \<Rightarrow> bool" where
  "bad_float P kvs k = (case map_of kvs k of None \<Rightarrow> True | Some j \<Rightarrow> validate_float P j = None)"

definition bad_float_list :: "pydantic \<Rightarrow> (string \<times> json) list \<Rightarrow> string \<Rightarrow> bool" where
  "bad_float_list P kvs k =
     (case map_of kvs k of
        Some (JList xs) \<Rightarrow> list_ex (\<lambda>x. validate_float P x = None) xs
      | _ \<Rightarrow> True)"

definition bad_bbox :: "pydantic \<Rightarrow> (string \<times> json) list \<Rightarrow> bool" where
  "bad_bbox P kvs =
     (case map_of kvs ''bbox'' of
        None \<Rightarrow> True
      | Some j \<Rightarrow>
          (case as_mapping P j of
             None \<Rightarrow> True
           | Some b \<Rightarrow>
               bad_float P b ''x'' \<or> bad_float P b ''y'' \<or> bad_float P b ''width'' \<or>
               bad_float P b ''height''))"

definition bad_object :: "pydantic \<Rightarrow> json \<Rightarrow> bool" where
  "bad_object P j =
     (case as_mapping P j of
        None \<Rightarrow> True
      | Some kvs \<Rightarrow> bad_str P kvs ''class'' \<or> bad_float_list P kvs ''bbox'')"

definition bad_objects :: "pydantic \<Rightarrow> (string \<times> json) list \<Rightarrow> bool" where
  "bad_objects P kvs =
     (case map_of kvs ''objects'' of
        None \<Rightarrow> False
      | Some JNull \<Rightarrow> False
      | Some (JList xs) \<Rightarrow> list_ex (bad_object P) xs
      | Some _ \<Rightarrow> True)"

definition malformed :: "pydantic \<Rightarrow> json \<Rightarrow> bool" where
  "malformed P body =
     (case as_mapping P body of
        None \<Rightarrow> True
      | Some kvs \<Rightarrow>
          bad_str P kvs ''object_class'' \<or> bad_float P kvs ''confidence'' \<or> bad_bbox P kvs \<or>
          bad_objects P kvs \<or> bad_str P kvs ''gemini_analysis'')"

text \<open>The keys of a JSON object, in the order they are emitted.\<close>

definition json_keys :: "json \<Rightarrow> string list" where
  "json_keys j = (case j of JObj kvs \<Rightarrow> map fst kvs | _ \<Rightarrow> [])"

text \<open>
  Sample values: the payload of the concrete scenario, the same payload with an empty
  \<^verbatim>\<open>objects\<close>, a scene record, a store that never raises, a library that converts
  nothing, and one that converts an array of pairs to keyword arguments.
\<close>

definition car_payload :: DetectionCreate where
  "car_payload =
     \<lparr>object_class = ''car'', confidence = 92 / 100,
      bbox = \<lparr>bb_x = 10, bb_y = 20, bb_width = 30, bb_height = 40\<rparr>,
      objects = Some [\<lparr>class_name = ''wheel'', obj_bbox = [1, 2, 3, 4]\<rparr>],
      gemini_analysis = ''a red car''\<rparr>"


definition scene_payload :: DetectionCreate where
  "scene_payload =
     \<lparr>object_class = ''scene'', confidence = 1,
      bbox = \<lparr>bb_x = 0, bb_y = 0, bb_width = 640, bb_height = 480\<rparr>,
      objects = None, gemini_analysis = ''a street''\<rparr>"

definition no_faults :: "int \<Rightarrow> env" where
  "no_faults t =
     \<lparr>utcnow = t, add_raises = None, commit_raises = None, refresh_raises = None,
      query_raises = None\<rparr>"

definition strict :: pydantic where
  "strict =
     \<lparr>str_of_num = (\<lambda>r. None), str_of_bool = (\<lambda>b. None),
      float_of_str = (\<lambda>s. None), float_of_bool = (\<lambda>b. None), dict_of = (\<lambda>j. None)\<rparr>"

fun pair_of :: "json \<Rightarrow> (string \<times> json) option" where
  "pair_of (JList [JStr k, v]) = Some (k, v)"
| "pair_of _ = None"

definition lenient :: pydantic where
  "lenient =
     strict\<lparr>dict_of := (\<lambda>j. case j of JList xs \<Rightarrow> those (map pair_of xs) | _ \<Rightarrow> None)\<rparr>"

definition car_row :: "int \<Rightarrow> int \<Rightarrow> Detection" where
  "car_row i t = (new_Detection car_payload)\<lparr>det_id := Some i, det_timestamp := Some t\<rparr>"

definition scene_row :: "int \<Rightarrow> int \<Rightarrow> Detection" where
  "scene_row i t = (new_Detection scene_payload)\<lparr>det_id := Some i, det_timestamp := Some t\<rparr>"

text \<open>
  A body with an empty \<^verbatim>\<open>object_class\<close>, an empty \<^verbatim>\<open>gemini_analysis\<close> and an object
  whose \<^verbatim>\<open>bbox\<close> has three elements, and the model it validates to.
\<close>

definition loose_body :: json where
  "loose_body =
     JObj [(''object_class'', JStr []), (''confidence'', JNum 1),
           (''bbox'', JObj [(''x'', JNum 1), (''y'', JNum 2), (''width'', JNum 3), (''height'', JNum 4)]),
           (''objects'', JList [JObj [(''class'', JStr ''wheel''), (''bbox'', JList [JNum 1, JNum 2, JNum 3])]]),
           (''gemini_analysis'', JStr [])]"

definition loose_payload :: DetectionCreate where
  "loose_payload =
     \<lparr>object_class = [], confidence = 1,
      bbox = \<lparr>bb_x = 1, bb_y = 2, bb_width = 3, bb_height = 4\<rparr>,
      objects = Some [\<lparr>class_name = ''wheel'', obj_bbox = [1, 2, 3]\<rparr>],
      gemini_analysis = []\<rparr>"

section \<open>Unfolding the session\<close>

lemmas session_defs = db_add_def db_commit_def db_refresh_def db_rollback_def db_query_page_def db_query_first_def get_db_def

section \<open>Comprehensions\<close>

lemma traverse_append:
  "traverse f (xs @ ys) =
     (case traverse f xs of
        Inl e \<Rightarrow> Inl e
      | Inr bs \<Rightarrow> (case traverse f ys of Inl e \<Rightarrow> Inl e | Inr cs \<Rightarrow> Inr (bs @ cs)))"
  by (induction xs) (auto split: sum.splits)

lemma traverse_Inr_iff: "traverse f xs = Inr ys \<longleftrightarrow> map f xs = map Inr ys"
proof (induction xs arbitrary: ys)
  case Nil
  then show ?case by auto
next
  case (Cons a as)
  show ?case
  proof (cases ys)
    case Nil
    then show ?thesis by (auto split: sum.splits)
  next
    case (Cons b bs)
    with Cons.IH [of bs] show ?thesis by (auto split: sum.splits)
  qed
qed

lemma traverse_total:
  "(\<And>a. a \<in> set xs \<Longrightarrow> \<exists>b. f a = Inr b) \<Longrightarrow> \<exists>ys. traverse f xs = Inr ys"
proof (induction xs)
  case Nil
  then show ?case by simp
next
  case (Cons a as)
  then obtain b where "f a = Inr b" by auto
  moreover from Cons obtain bs where "traverse f as = Inr bs" by auto
  ultimately show ?case by simp
qed

lemma traverse_page:
  assumes "traverse f xs = Inr ys"
  shows "traverse f (take m (drop k xs)) = Inr (take m (drop k ys))"
proof -
  from assms have "map f xs = map Inr ys" by (simp add: traverse_Inr_iff)
  then have "take m (drop k (map f xs)) = take m (drop k (map Inr ys))" by simp
  then have "map f (take m (drop k xs)) = map Inr (take m (drop k ys))"
    by (simp only: take_map drop_map)
  then show ?thesis by (simp add: traverse_Inr_iff)
qed

section \<open>Reading back what was written\<close>

lemma field_hit:
  "map_of kvs k = Some j \<Longrightarrow> v j = Some a \<Longrightarrow> field kvs k v = Inr a"
  by (simp add: field_def)

lemma BoundingBox_init_dict: "BoundingBox_init P (BoundingBox_dict b) = Inr b"
  by (simp add: BoundingBox_init_def BoundingBox_dict_def field_def)

lemma those_validate_JNum: "those (map (validate_float P \<circ> JNum) rs) = Some rs"
  by (induction rs) simp_all

lemma those_validate_nums:
  "list_all is_num xs \<Longrightarrow> \<exists>rs. those (map (validate_float P) xs) = Some rs"
proof (induction xs)
  case Nil
  then show ?case by simp
next
  case (Cons a as)
  then obtain rs where "those (map (validate_float P) as) = Some rs" by auto
  moreover from Cons.prems obtain r where "a = JNum r"
    by (cases a) (simp_all add: is_num_def)
  ultimately show ?case by simp
qed

lemma ObjectInfo_init_dict: "ObjectInfo_init P (ObjectInfo_dict_by_alias obj) = Inr obj"
  by (simp add: ObjectInfo_init_def ObjectInfo_dict_by_alias_def field_def those_validate_JNum)

lemma traverse_objects:
  "traverse (\<lambda>obj. (case kwargs obj of Inl e \<Rightarrow> Inl e | Inr kvs \<Rightarrow> ObjectInfo_init P kvs))
     (map (\<lambda>obj. JObj (ObjectInfo_dict_by_alias obj)) xs) = Inr xs"
  by (induction xs) (simp_all add: kwargs_def ObjectInfo_init_dict)

lemma read_objects_column:
  "read_objects P (objects_column os) = Inr (if os = Some [] then None else os)"
  by (cases os) (simp_all add: read_objects_def objects_column_def iterate_def traverse_objects)

lemma read_Detection_new:
  assumes "det_bbox r = JObj (BoundingBox_dict (bbox d))"
    and "det_objects r = objects_column (objects d)"
    and "det_object_class r = object_class d"
    and "det_confidence r = confidence d"
    and "det_gemini_analysis r = gemini_analysis d"
  shows "read_Detection P r = Inr (d\<lparr>objects := (if objects d = Some [] then None else objects d)\<rparr>)"
  using assms
  by (simp add: read_Detection_def kwargs_def BoundingBox_init_dict read_objects_column)

section \<open>Rows of the stored shape can be read\<close>

lemma has_floatD:
  assumes "has_float kvs k"
  shows "\<exists>r. map_of kvs k = Some (JNum r)"
proof (cases "map_of kvs k")
  case None
  with assms show ?thesis by (simp add: has_float_def)
next
  case (Some j)
  with assms show ?thesis by (cases j) (simp_all add: has_float_def)
qed

lemma field_float: "has_float kvs k \<Longrightarrow> \<exists>r. field kvs k (validate_float P) = Inr r"
  by (auto simp: field_def dest: has_floatD)

lemma BoundingBox_init_shape:
  assumes "bbox_shape (JObj kvs)"
  shows "\<exists>b. BoundingBox_init P kvs = Inr b"
proof -
  from assms have "has_float kvs ''x''" "has_float kvs ''y''"
    "has_float kvs ''width''" "has_float kvs ''height''"
    by (simp_all add: bbox_shape_def)
  then obtain vx vy vw vh where
    "field kvs ''x'' (validate_float P) = Inr vx" "field kvs ''y'' (validate_float P) = Inr vy"
    "field kvs ''width'' (validate_float P) = Inr vw" "field kvs ''height'' (validate_float P) = Inr vh"
    using field_float by metis
  then show ?thesis by (simp add: BoundingBox_init_def)
qed

lemma ObjectInfo_init_shape:
  assumes "object_shape j"
  shows "\<exists>obj. (case kwargs j of Inl e \<Rightarrow> Inl e | Inr kvs \<Rightarrow> ObjectInfo_init P kvs) = Inr obj"
proof -
  from assms obtain kvs where j: "j = JObj kvs"
    by (cases j) (simp_all add: object_shape_def)
  from assms j have c': "(case map_of kvs ''class'' of Some (JStr s) \<Rightarrow> True | _ \<Rightarrow> False)"
    and b': "(case map_of kvs ''bbox'' of Some (JList xs) \<Rightarrow> list_all is_num xs | _ \<Rightarrow> False)"
    by (simp_all add: object_shape_def)
  from c' obtain s where c: "map_of kvs ''class'' = Some (JStr s)"
    by (cases "map_of kvs ''class''"; cases "the (map_of kvs ''class'')") simp_all
  from b' obtain xs where b: "map_of kvs ''bbox'' = Some (JList xs)" and n: "list_all is_num xs"
    by (cases "map_of kvs ''bbox''"; cases "the (map_of kvs ''bbox'')") simp_all
  from those_validate_nums [OF n] obtain rs where "those (map (validate_float P) xs) = Some rs" by blast
  with j c b show ?thesis by (simp add: kwargs_def ObjectInfo_init_def field_def)
qed

lemma read_objects_shape:
  assumes "objects_shape j"
  shows "\<exists>os. read_objects P j = Inr os"
proof (cases j)
  case (JList xs)
  with assms have "\<And>a. a \<in> set xs \<Longrightarrow> object_shape a"
    by (simp add: objects_shape_def list_all_iff)
  then have "\<exists>ys. traverse (\<lambda>obj. (case kwargs obj of Inl e \<Rightarrow> Inl e | Inr kvs \<Rightarrow> ObjectInfo_init P kvs)) xs = Inr ys"
    by (intro traverse_total ObjectInfo_init_shape)
  with JList show ?thesis by (auto simp: read_objects_def iterate_def)
qed (use assms in \<open>simp_all add: objects_shape_def read_objects_def\<close>)

lemma read_Detection_shape:
  assumes "row_shape r"
  shows "\<exists>d. read_Detection P r = Inr d"
proof -
  from assms obtain kvs where k: "det_bbox r = JObj kvs" and "bbox_shape (JObj kvs)"
    by (cases "det_bbox r") (simp_all add: row_shape_def bbox_shape_def)
  then obtain b where "BoundingBox_init P kvs = Inr b" using BoundingBox_init_shape by blast
  moreover from assms obtain os where "read_objects P (det_objects r) = Inr os"
    using read_objects_shape by (auto simp: row_shape_def)
  ultimately show ?thesis using k by (simp add: read_Detection_def kwargs_def)
qed

lemma bbox_shape_dict: "bbox_shape (JObj (BoundingBox_dict b))"
  by (auto simp: bbox_shape_def BoundingBox_dict_def has_float_def)

lemma objects_shape_column: "objects_shape (objects_column os)"
  by (cases os)
    (auto simp: objects_shape_def objects_column_def object_shape_def ObjectInfo_dict_by_alias_def
      is_num_def list_all_iff)

lemma row_shape_new: "row_shape (new_Detection d)"
  by (simp add: row_shape_def new_Detection_def bbox_shape_dict objects_shape_column)

lemma row_shape_insert:
  "list_all row_shape rows \<Longrightarrow> row_shape obj \<Longrightarrow> list_all row_shape (insert_row now rows obj)"
  by (simp add: insert_row_def row_shape_def)

lemma row_shape_update:
  "list_all row_shape rows \<Longrightarrow> list_all row_shape (update_row rows ch)"
  by (auto simp: update_row_def row_shape_def list_all_iff)

section \<open>What a request does to the table\<close>

lemma find_det_id: "find (\<lambda>r. det_id r = Some i) rows = Some r \<Longrightarrow> det_id r = Some i"
  by (induction rows) (auto split: if_splits)

lemma find_None_iff: "find (\<lambda>r. det_id r = Some i) rows = None \<longleftrightarrow> Some i \<notin> set (map det_id rows)"
  by (induction rows) auto

lemma create_table:
  "table (snd (create_detection E d (get_db rows))) =
     (if add_raises E = None \<and> commit_raises E = None
      then insert_row (utcnow E) rows (new_Detection d) else rows)"
  by (auto simp: create_detection_def session_defs Let_def split: option.splits)

lemma update_table:
  "table (snd (update_gemini_analysis E i a (get_db rows))) =
     (if query_raises E = None \<and> commit_raises E = None \<and> Some i \<in> set (map det_id rows)
      then update_row rows (Some i, a) else rows)"
proof (cases "find (\<lambda>r. det_id r = Some i) rows")
  case None
  then have "Some i \<notin> set (map det_id rows)" by (simp add: find_None_iff)
  with None show ?thesis
    by (auto simp: update_gemini_analysis_def session_defs split: option.splits)
next
  case (Some r)
  then have "det_id r = Some i" by (rule find_det_id)
  moreover from Some have "Some i \<in> set (map det_id rows)" using find_None_iff [of i rows] by auto
  ultimately show ?thesis using Some
    by (auto simp: update_gemini_analysis_def session_defs split: option.splits)
qed

lemma reachable_shape: "reachable rows \<Longrightarrow> list_all row_shape rows"
proof (induction rule: reachable.induct)
  case empty
  then show ?case by simp
next
  case (created rows E d)
  then show ?case by (simp add: create_table row_shape_insert row_shape_new)
next
  case (updated rows E i a)
  then show ?case by (simp add: update_table row_shape_update)
qed

lemma max_id_ge: "r \<in> set rows \<Longrightarrow> det_id r = Some i \<Longrightarrow> i \<le> max_id rows"
  by (induction rows) auto

lemma fresh_id: "Some (max_id rows + 1) \<notin> set (map det_id rows)"
proof
  assume "Some (max_id rows + 1) \<in> set (map det_id rows)"
  then obtain r where "r \<in> set rows" "det_id r = Some (max_id rows + 1)" by auto
  then have "max_id rows + 1 \<le> max_id rows" by (rule max_id_ge)
  then show False by simp
qed

section \<open>Successful requests\<close>


lemma create_ok:
  assumes "add_raises E = None" "commit_raises E = None" "refresh_raises E = None"
  shows "create_detection E d (get_db rows) =
           (Ok d, get_db (insert_row (utcnow E) rows (new_Detection d)))"
  using assms by (simp add: create_detection_def session_defs)

lemma read_all:
  assumes "list_all row_shape rows"
  shows "\<exists>ds. traverse (read_Detection P) rows = Inr ds"
proof (rule traverse_total)
  fix r assume "r \<in> set rows"
  with assms have "row_shape r" by (simp add: list_all_iff)
  then show "\<exists>d. read_Detection P r = Inr d" by (rule read_Detection_shape)
qed

lemma get_detections_page:
  assumes "traverse (read_Detection P) rows = Inr ds"
    and "query_raises E = None" and "0 \<le> limit"
  shows "get_detections P E skip limit (get_db rows) =
           (Ok (take (nat limit) (drop (nat skip) ds)), get_db rows)"
proof -
  from assms(1) have "traverse (read_Detection P) (take (nat limit) (drop (nat skip) rows)) =
      Inr (take (nat limit) (drop (nat skip) ds))"
    by (rule traverse_page)
  with assms(2,3) show ?thesis
    by (simp add: get_detections_def db_query_page_def get_db_def)
qed

lemma read_inserted:
  "traverse (read_Detection P) rows = Inr ds \<Longrightarrow>
   traverse (read_Detection P) (insert_row now rows (new_Detection d)) =
     Inr (ds @ [d\<lparr>objects := (if objects d = Some [] then None else objects d)\<rparr>])"
  by (simp add: insert_row_def traverse_append read_Detection_new new_Detection_def)

lemma reachable_one: "reachable [car_row 1 0]"
proof -
  have "reachable (table (snd (create_detection (no_faults 0) car_payload (get_db []))))"
    by (rule reachable.created) (rule reachable.empty)
  then show ?thesis
    by (simp add: create_table no_faults_def insert_row_def car_row_def new_Detection_def)
qed

lemma reachable_two: "reachable [car_row 1 0, scene_row 2 1]"
proof -
  have "reachable (table (snd (create_detection (no_faults 1) scene_payload (get_db [car_row 1 0]))))"
    by (rule reachable.created) (rule reachable_one)
  then show ?thesis
    by (simp add: create_table no_faults_def insert_row_def car_row_def scene_row_def new_Detection_def)
qed

section \<open>Create, then list\<close>




section \<open>Pagination\<close>



section \<open>Updating the annotation\<close>

text \<open>
  C3. When no stored row has the given id and the lookup does not fail, the update
  raises \<^verbatim>\<open>HTTPException(404, "Detection not found")\<close> and leaves the session, and
  with it every stored row, as it was.
\<close>

theorem update_not_found:
  assumes "Some detection_id \<notin> set (map det_id rows)" and "query_raises E = None"
  shows "update_gemini_analysis E detection_id analysis (get_db rows) =
           (HTTPException 404 ''Detection not found'', get_db rows)"
proof -
  from assms(1) have "find (\<lambda>r. det_id r = Some detection_id) rows = None"
    by (simp add: find_None_iff)
  with assms(2) show ?thesis
    by (simp add: update_gemini_analysis_def db_query_first_def get_db_def)
qed

theorem update_not_found_witness:
  "Some 3 \<notin> set (map det_id [car_row 1 0, scene_row 2 1]) \<and> query_raises (no_faults 2) = None \<and>
   update_gemini_analysis (no_faults 2) 3 ''new text'' (get_db [car_row 1 0, scene_row 2 1]) =
     (HTTPException 404 ''Detection not found'', get_db [car_row 1 0, scene_row 2 1])"
proof -
  have h: "Some 3 \<notin> set (map det_id [car_row 1 0, scene_row 2 1])" "query_raises (no_faults 2) = None"
    by (simp_all add: car_row_def scene_row_def no_faults_def)
  from update_not_found [OF h] h show ?thesis by blast
qed

text \<open>
  C4. When a stored row has the given id and the store fails neither the lookup nor
  the commit, the update returns \<^verbatim>\<open>{"status": "success"}\<close>; afterwards the table has
  the same rows in the same order, a row with another id is unchanged, and a row with
  the given id differs in \<^verbatim>\<open>gemini_analysis\<close> only, which is the new text: the id,
  timestamp, object class, confidence, bbox and objects of every row are as before.
\<close>

theorem update_frame:
  assumes "Some detection_id \<in> set (map det_id rows)"
    and "query_raises E = None" and "commit_raises E = None"
  shows "\<exists>rows'.
      update_gemini_analysis E detection_id analysis (get_db rows) =
        (Ok [(''status'', ''success'')], get_db rows') \<and>
      length rows' = length rows \<and>
      (\<forall>j<length rows.
         rows' ! j = (if det_id (rows ! j) = Some detection_id
                      then (rows ! j)\<lparr>det_gemini_analysis := analysis\<rparr> else rows ! j)) \<and>
      map det_id rows' = map det_id rows \<and>
      map det_timestamp rows' = map det_timestamp rows \<and>
      map det_object_class rows' = map det_object_class rows \<and>
      map det_confidence rows' = map det_confidence rows \<and>
      map det_bbox rows' = map det_bbox rows \<and>
      map det_objects rows' = map det_objects rows"
proof -
  let ?rows' = "update_row rows (Some detection_id, analysis)"
  from assms(1) obtain r where r: "find (\<lambda>r. det_id r = Some detection_id) rows = Some r"
    using find_None_iff [of detection_id rows] by auto
  then have "det_id r = Some detection_id" by (rule find_det_id)
  with r assms(2,3) have
    "update_gemini_analysis E detection_id analysis (get_db rows) =
       (Ok [(''status'', ''success'')], get_db ?rows')"
    by (simp add: update_gemini_analysis_def db_query_first_def db_commit_def get_db_def)
  moreover have "length ?rows' = length rows" by (simp add: update_row_def)
  moreover have "\<forall>j<length rows.
         ?rows' ! j = (if det_id (rows ! j) = Some detection_id
                      then (rows ! j)\<lparr>det_gemini_analysis := analysis\<rparr> else rows ! j)"
    by (simp add: update_row_def)
  moreover have "map det_id ?rows' = map det_id rows"
    "map det_timestamp ?rows' = map det_timestamp rows"
    "map det_object_class ?rows' = map det_object_class rows"
    "map det_confidence ?rows' = map det_confidence rows"
    "map det_bbox ?rows' = map det_bbox rows"
    "map det_objects ?rows' = map det_objects rows"
    by (simp_all add: update_row_def)
  ultimately show ?thesis by blast
qed

theorem update_frame_witness:
  "Some 1 \<in> set (map det_id [car_row 1 0, scene_row 2 1]) \<and> query_raises (no_faults 2) = None \<and>
   commit_raises (no_faults 2) = None \<and>
   (\<exists>rows'. update_gemini_analysis (no_faults 2) 1 ''new text'' (get_db [car_row 1 0, scene_row 2 1]) =
        (Ok [(''status'', ''success'')], get_db rows') \<and>
      rows' ! 0 = (car_row 1 0)\<lparr>det_gemini_analysis := ''new text''\<rparr> \<and>
      rows' ! 1 = scene_row 2 1)"
proof -
  have h: "Some 1 \<in> set (map det_id [car_row 1 0, scene_row 2 1])"
    "query_raises (no_faults 2) = None" "commit_raises (no_faults 2) = None"
    by (simp_all add: car_row_def scene_row_def no_faults_def)
  from update_frame [OF h, of "''new text''"]
  obtain rows' where u: "update_gemini_analysis (no_faults 2) 1 ''new text'' (get_db [car_row 1 0, scene_row 2 1]) =
        (Ok [(''status'', ''success'')], get_db rows')"
    and n: "\<forall>j<length [car_row 1 0, scene_row 2 1].
         rows' ! j = (if det_id ([car_row 1 0, scene_row 2 1] ! j) = Some 1
                      then ([car_row 1 0, scene_row 2 1] ! j)\<lparr>det_gemini_analysis := ''new text''\<rparr>
                      else [car_row 1 0, scene_row 2 1] ! j)"
    by blast
  from n have "rows' ! 0 = (car_row 1 0)\<lparr>det_gemini_analysis := ''new text''\<rparr>"
    by (simp add: car_row_def)
  moreover from n have "rows' ! 1 = scene_row 2 1"
    by (simp add: scene_row_def)
  ultimately show ?thesis using u h by blast
qed

section \<open>What create returns and what it stores\<close>

text \<open>
  C5. A create that the store does not fail returns exactly its input, whose wire
  form has the five keys of \<^verbatim>\<open>DetectionCreate\<close> and so neither an id nor a timestamp;
  the table gains one row at its end, which holds the input's values, the current
  time as timestamp and an id that no earlier row has.
\<close>

theorem create_echo:
  assumes "add_raises E = None" and "commit_raises E = None" and "refresh_raises E = None"
  shows "create_detection E d (get_db rows) =
           (Ok d, get_db (rows @ [(new_Detection d)\<lparr>det_id := Some (max_id rows + 1),
                                                    det_timestamp := Some (utcnow E)\<rparr>])) \<and>
         Some (max_id rows + 1) \<notin> set (map det_id rows) \<and>
         json_keys (DetectionCreate_json d) =
           [''object_class'', ''confidence'', ''bbox'', ''objects'', ''gemini_analysis'']"
proof -
  have "insert_row (utcnow E) rows (new_Detection d) =
      rows @ [(new_Detection d)\<lparr>det_id := Some (max_id rows + 1), det_timestamp := Some (utcnow E)\<rparr>]"
    by (simp add: insert_row_def new_Detection_def)
  with create_ok [OF assms, of d rows] show ?thesis
    by (simp add: fresh_id json_keys_def DetectionCreate_json_def del: set_map)
qed

theorem create_echo_witness:
  "add_raises (no_faults 7) = None \<and> commit_raises (no_faults 7) = None \<and>
   refresh_raises (no_faults 7) = None \<and>
   create_detection (no_faults 7) scene_payload (get_db [car_row 1 0]) =
     (Ok scene_payload, get_db [car_row 1 0, scene_row 2 7])"
proof -
  have h: "add_raises (no_faults 7) = None" "commit_raises (no_faults 7) = None"
    "refresh_raises (no_faults 7) = None"
    by (simp_all add: no_faults_def)
  from create_echo [OF h, of scene_payload "[car_row 1 0]"] h show ?thesis
    by (simp add: scene_row_def car_row_def no_faults_def)
qed

section \<open>Store failures\<close>

text \<open>
  C6 (as amended). When \<^verbatim>\<open>db.add\<close> or \<^verbatim>\<open>db.commit\<close> raises, the create rolls the
  session back, raises \<^verbatim>\<open>HTTPException(500, str(e))\<close> with the message of the failure,
  and leaves the table as it was before the call, with nothing pending.
\<close>

theorem create_failure_before_commit:
  assumes "add_raises E = Some m \<or> (add_raises E = None \<and> commit_raises E = Some m)"
  shows "create_detection E d db = (HTTPException 500 m, db_rollback db) \<and>
         table (db_rollback db) = table db \<and>
         pending (db_rollback db) = [] \<and> dirty (db_rollback db) = [] \<and>
         create_detection E d (get_db rows) = (HTTPException 500 m, get_db rows)"
  using assms
  by (auto simp: create_detection_def db_add_def db_commit_def db_rollback_def get_db_def)

theorem create_failure_before_commit_witness:
  "(add_raises ((no_faults 7)\<lparr>commit_raises := Some ''disk full''\<rparr>) = Some ''disk full'' \<or>
      add_raises ((no_faults 7)\<lparr>commit_raises := Some ''disk full''\<rparr>) = None \<and>
      commit_raises ((no_faults 7)\<lparr>commit_raises := Some ''disk full''\<rparr>) = Some ''disk full'') \<and>
   create_detection ((no_faults 7)\<lparr>commit_raises := Some ''disk full''\<rparr>) car_payload
       (get_db [scene_row 1 0]) =
     (HTTPException 500 ''disk full'', get_db [scene_row 1 0])"
proof -
  have h: "add_raises ((no_faults 7)\<lparr>commit_raises := Some ''disk full''\<rparr>) = Some ''disk full'' \<or>
      add_raises ((no_faults 7)\<lparr>commit_raises := Some ''disk full''\<rparr>) = None \<and>
      commit_raises ((no_faults 7)\<lparr>commit_raises := Some ''disk full''\<rparr>) = Some ''disk full''"
    by (simp add: no_faults_def)
  from create_failure_before_commit [OF h, of car_payload _ "[scene_row 1 0]"] h
  show ?thesis by blast
qed

text \<open>
  C6 as stated fails: when \<^verbatim>\<open>db.refresh\<close> raises, the commit before it has already
  written the row; the rollback finds nothing pending, the handler reports 500, and
  the table holds the new row.
\<close>

theorem create_failure_after_commit:
  "create_detection ((no_faults 7)\<lparr>refresh_raises := Some ''connection lost''\<rparr>) car_payload
       (get_db []) =
     (HTTPException 500 ''connection lost'', get_db [car_row 1 7]) \<and>
   table (get_db [car_row 1 7]) \<noteq> table (get_db [])"
  by (simp add: create_detection_def session_defs insert_row_def car_row_def no_faults_def
      new_Detection_def Let_def)

text \<open>
  C9. A failure of any call in the \<^verbatim>\<open>try\<close> block of create (\<open>m\<close> is the message of
  the first call that raises), and a failure of the query of list, is caught by the
  handler and raised again as \<^verbatim>\<open>HTTPException(500, str(e))\<close>; a failure of the commit in
  update, which stands outside any \<^verbatim>\<open>try\<close>, leaves the handler as the store's own
  exception.
\<close>

theorem error_propagation:
  assumes "(case add_raises Ec of
              Some m \<Rightarrow> Some m
            | None \<Rightarrow> (case commit_raises Ec of Some m \<Rightarrow> Some m | None \<Rightarrow> refresh_raises Ec))
           = Some mc"
    and "query_raises El = Some ml"
    and "query_raises Eu = None" and "Some i \<in> set (map det_id (table dbu))"
    and "commit_raises Eu = Some mu"
  shows "fst (create_detection Ec d dbc) = HTTPException 500 mc \<and>
         get_detections P El skip limit dbl = (HTTPException 500 ml, dbl) \<and>
         fst (update_gemini_analysis Eu i a dbu) = Unhandled (StoreFailure mu) \<and>
         table (snd (update_gemini_analysis Eu i a dbu)) = table dbu"
proof -
  have c: "fst (create_detection Ec d dbc) = HTTPException 500 mc"
    using assms(1)
    by (auto simp: create_detection_def db_add_def db_commit_def db_refresh_def
        split: option.splits)
  have l: "get_detections P El skip limit dbl = (HTTPException 500 ml, dbl)"
    using assms(2) by (simp add: get_detections_def db_query_page_def)
  from assms(4) obtain r where "find (\<lambda>r. det_id r = Some i) (table dbu) = Some r"
    using find_None_iff [of i "table dbu"] by auto
  with assms(3,5) have
    "fst (update_gemini_analysis Eu i a dbu) = Unhandled (StoreFailure mu)"
    "table (snd (update_gemini_analysis Eu i a dbu)) = table dbu"
    by (simp_all add: update_gemini_analysis_def db_query_first_def db_commit_def)
  with c l show ?thesis by blast
qed

theorem error_propagation_witness:
  "fst (create_detection ((no_faults 7)\<lparr>commit_raises := Some ''disk full''\<rparr>) car_payload (get_db []))
     = HTTPException 500 ''disk full'' \<and>
   get_detections strict ((no_faults 7)\<lparr>query_raises := Some ''no connection''\<rparr>) 0 100
       (get_db [car_row 1 0])
     = (HTTPException 500 ''no connection'', get_db [car_row 1 0]) \<and>
   fst (update_gemini_analysis ((no_faults 7)\<lparr>commit_raises := Some ''disk full''\<rparr>) 1 ''new text''
       (get_db [car_row 1 0]))
     = Unhandled (StoreFailure ''disk full'')"
proof -
  have h: "(case add_raises ((no_faults 7)\<lparr>commit_raises := Some ''disk full''\<rparr>) of
              Some m \<Rightarrow> Some m
            | None \<Rightarrow> (case commit_raises ((no_faults 7)\<lparr>commit_raises := Some ''disk full''\<rparr>) of
                         Some m \<Rightarrow> Some m
                       | None \<Rightarrow> refresh_raises ((no_faults 7)\<lparr>commit_raises := Some ''disk full''\<rparr>)))
           = Some ''disk full''"
    "query_raises ((no_faults 7)\<lparr>query_raises := Some ''no connection''\<rparr>) = Some ''no connection''"
    "query_raises ((no_faults 7)\<lparr>commit_raises := Some ''disk full''\<rparr>) = None"
    "Some 1 \<in> set (map det_id (table (get_db [car_row 1 0])))"
    "commit_raises ((no_faults 7)\<lparr>commit_raises := Some ''disk full''\<rparr>) = Some ''disk full''"
    by (simp_all add: no_faults_def get_db_def car_row_def)
  from error_propagation [OF h, of car_payload "get_db []" strict 0 100 "get_db [car_row 1 0]" "''new text''"]
  show ?thesis by blast
qed

section \<open>Scene records\<close>

text \<open>
  C8. A create of a record whose \<^verbatim>\<open>object_class\<close> is \<^verbatim>\<open>scene\<close> stores the four bbox
  values as they are, and a following list returns them as they are, under the
  conditions of the round trip. Neither direction looks at the class: replacing it in
  the input replaces the class column of the new row and nothing else, and replacing
  the class column of a row replaces the class of its reading and nothing else.
\<close>

theorem scene_bbox_verbatim:
  assumes "reachable rows"
    and "add_raises E = None" and "commit_raises E = None" and "refresh_raises E = None"
    and "query_raises E' = None" and "int (length rows) < limit"
    and "object_class d = ''scene''"
  shows "\<exists>old e.
      fst (get_detections P E' 0 limit (get_db (table (snd (create_detection E d (get_db rows))))))
        = Ok (old @ [e]) \<and>
      object_class e = ''scene'' \<and> bbox e = bbox d \<and>
      det_bbox (last (table (snd (create_detection E d (get_db rows))))) =
        JObj [(''x'', JNum (bb_x (bbox d))), (''y'', JNum (bb_y (bbox d))),
              (''width'', JNum (bb_width (bbox d))), (''height'', JNum (bb_height (bbox d)))] \<and>
      new_Detection (d\<lparr>object_class := c\<rparr>) = (new_Detection d)\<lparr>det_object_class := c\<rparr> \<and>
      read_Detection P (r\<lparr>det_object_class := c\<rparr>) =
        map_sum id (\<lambda>e. e\<lparr>object_class := c\<rparr>) (read_Detection P r)"
proof -
  from assms(1) have "list_all row_shape rows" by (rule reachable_shape)
  then obtain old where old: "traverse (read_Detection P) rows = Inr old"
    using read_all by blast
  then have len: "length old = length rows"
    by (metis traverse_Inr_iff length_map)
  let ?e = "d\<lparr>objects := (if objects d = Some [] then None else objects d)\<rparr>"
  let ?rows' = "insert_row (utcnow E) rows (new_Detection d)"
  from assms(6) have lim: "0 \<le> limit" "length rows < nat limit" by simp_all
  have made: "create_detection E d (get_db rows) = (Ok d, get_db ?rows')"
    using assms(2-4) by (rule create_ok)
  have "traverse (read_Detection P) ?rows' = Inr (old @ [?e])"
    using old by (rule read_inserted)
  from get_detections_page [OF this assms(5) lim(1), of 0]
  have "get_detections P E' 0 limit (get_db ?rows') = (Ok (old @ [?e]), get_db ?rows')"
    using lim(2) len by simp
  with made have listed:
    "fst (get_detections P E' 0 limit (get_db (table (snd (create_detection E d (get_db rows))))))
       = Ok (old @ [?e])"
    by (simp add: get_db_def)
  have stored: "det_bbox (last (table (snd (create_detection E d (get_db rows))))) =
        JObj [(''x'', JNum (bb_x (bbox d))), (''y'', JNum (bb_y (bbox d))),
              (''width'', JNum (bb_width (bbox d))), (''height'', JNum (bb_height (bbox d)))]"
    using made by (simp add: get_db_def insert_row_def new_Detection_def BoundingBox_dict_def)
  have new: "new_Detection (d\<lparr>object_class := c\<rparr>) = (new_Detection d)\<lparr>det_object_class := c\<rparr>"
    by (simp add: new_Detection_def)
  have rd: "read_Detection P (r\<lparr>det_object_class := c\<rparr>) =
        map_sum id (\<lambda>e. e\<lparr>object_class := c\<rparr>) (read_Detection P r)"
    by (simp add: read_Detection_def split: sum.splits)
  from assms(7) have "object_class ?e = ''scene''" "bbox ?e = bbox d" by simp_all
  with listed stored new rd show ?thesis by blast
qed

theorem scene_bbox_verbatim_witness:
  "reachable [car_row 1 0] \<and> object_class scene_payload = ''scene'' \<and>
   (\<exists>old e.
      fst (get_detections strict (no_faults 2) 0 100
        (get_db (table (snd (create_detection (no_faults 1) scene_payload (get_db [car_row 1 0]))))))
        = Ok (old @ [e]) \<and>
      bbox e = \<lparr>bb_x = 0, bb_y = 0, bb_width = 640, bb_height = 480\<rparr>)"
proof -
  have h: "add_raises (no_faults 1) = None" "commit_raises (no_faults 1) = None"
    "refresh_raises (no_faults 1) = None" "query_raises (no_faults 2) = None"
    "int (length [car_row 1 0]) < 100" "object_class scene_payload = ''scene''"
    by (simp_all add: no_faults_def scene_payload_def)
  from scene_bbox_verbatim [OF reachable_one h, of strict]
  obtain old e where
    "fst (get_detections strict (no_faults 2) 0 100
        (get_db (table (snd (create_detection (no_faults 1) scene_payload (get_db [car_row 1 0]))))))
        = Ok (old @ [e])"
    and "bbox e = bbox scene_payload"
    by blast
  moreover have "bbox scene_payload = \<lparr>bb_x = 0, bb_y = 0, bb_width = 640, bb_height = 480\<rparr>"
    by (simp add: scene_payload_def)
  ultimately show ?thesis using reachable_one h(6) by auto
qed

section \<open>The stored shape of a bbox\<close>

text \<open>
  C10. In every table that create and updateAnnotation requests produce from the
  empty table, the \<^verbatim>\<open>bbox\<close> of every row is a mapping with exactly the keys \<^verbatim>\<open>x\<close>,
  \<^verbatim>\<open>y\<close>, \<^verbatim>\<open>width\<close> and \<^verbatim>\<open>height\<close>, each bound to a number: create writes it in
  that shape, and the write of an update leaves the bbox column as it is.
\<close>

theorem stored_bbox_shape:
  assumes "reachable rows"
  shows "(\<forall>r\<in>set rows. bbox_shape (det_bbox r)) \<and>
         bbox_shape (det_bbox (new_Detection d)) \<and>
         map det_bbox (update_row rows ch) = map det_bbox rows"
proof -
  from assms have "list_all row_shape rows" by (rule reachable_shape)
  then have "\<forall>r\<in>set rows. bbox_shape (det_bbox r)"
    by (simp add: list_all_iff row_shape_def)
  moreover have "bbox_shape (det_bbox (new_Detection d))"
    by (simp add: new_Detection_def bbox_shape_dict)
  moreover have "map det_bbox (update_row rows ch) = map det_bbox rows"
    by (simp add: update_row_def)
  ultimately show ?thesis by blast
qed

theorem stored_bbox_shape_witness:
  "reachable [car_row 1 0, scene_row 2 1] \<and>
   bbox_shape (det_bbox (car_row 1 0)) \<and> bbox_shape (det_bbox (scene_row 2 1))"
proof -
  from stored_bbox_shape [OF reachable_two]
  have "\<forall>r\<in>set [car_row 1 0, scene_row 2 1]. bbox_shape (det_bbox r)" by blast
  then show ?thesis using reachable_two by simp
qed

section \<open>Validation of the request body\<close>

lemma not_scalar_invalid:
  assumes "not_scalar j"
  shows "validate_str P j = None" and "validate_float P j = None"
  using assms by (cases j; simp add: not_scalar_def)+

lemma bad_str_field: "bad_str P kvs k \<Longrightarrow> field kvs k (validate_str P) = Inl (ValidationError k)"
  by (cases "map_of kvs k") (simp_all add: bad_str_def field_def)

lemma bad_float_field: "bad_float P kvs k \<Longrightarrow> field kvs k (validate_float P) = Inl (ValidationError k)"
  by (cases "map_of kvs k") (simp_all add: bad_float_def field_def)

lemma those_invalid:
  "list_ex (\<lambda>x. validate_float P x = None) xs \<Longrightarrow> those (map (validate_float P) xs) = None"
  by (induction xs) (auto split: option.splits)

lemma bad_float_list_field:
  assumes "bad_float_list P kvs k"
  shows "field kvs k (validate_float_list P) = Inl (ValidationError k)"
proof (cases "map_of kvs k")
  case None
  then show ?thesis by (simp add: field_def)
next
  case (Some v)
  with assms show ?thesis
    by (cases v) (simp_all add: bad_float_list_def field_def those_invalid)
qed

lemma BoundingBox_init_bad:
  assumes "bad_float P b ''x'' \<or> bad_float P b ''y'' \<or> bad_float P b ''width'' \<or>
           bad_float P b ''height''"
  shows "\<exists>e. BoundingBox_init P b = Inl e"
proof -
  let ?x = "field b ''x'' (validate_float P)"
  let ?y = "field b ''y'' (validate_float P)"
  let ?w = "field b ''width'' (validate_float P)"
  let ?h = "field b ''height'' (validate_float P)"
  from assms have "(\<exists>e. ?x = Inl e) \<or> (\<exists>e. ?y = Inl e) \<or> (\<exists>e. ?w = Inl e) \<or> (\<exists>e. ?h = Inl e)"
    using bad_float_field [of P b] by blast
  then show ?thesis
    unfolding BoundingBox_init_def by (cases ?x; cases ?y; cases ?w; cases ?h) auto
qed

lemma validate_bbox_bad:
  assumes "bad_bbox P kvs"
  shows "\<exists>e. validate_bbox P kvs = Inl e"
proof (cases "map_of kvs ''bbox''")
  case None
  then show ?thesis by (simp add: validate_bbox_def)
next
  case (Some j)
  show ?thesis
  proof (cases "as_mapping P j")
    case None
    with Some show ?thesis by (simp add: validate_bbox_def validate_model_def)
  next
    case (Some b)
    with \<open>map_of kvs ''bbox'' = Some j\<close> assms
    have "bad_float P b ''x'' \<or> bad_float P b ''y'' \<or> bad_float P b ''width'' \<or>
          bad_float P b ''height''"
      by (simp add: bad_bbox_def)
    then obtain e where "BoundingBox_init P b = Inl e" using BoundingBox_init_bad by blast
    with Some \<open>map_of kvs ''bbox'' = Some j\<close> show ?thesis
      by (simp add: validate_bbox_def validate_model_def)
  qed
qed

lemma ObjectInfo_bad:
  assumes "bad_object P j"
  shows "\<exists>e. validate_model P (ObjectInfo_init P) k j = Inl e"
proof (cases "as_mapping P j")
  case None
  then show ?thesis by (simp add: validate_model_def)
next
  case (Some kvs)
  with assms have "bad_str P kvs ''class'' \<or> bad_float_list P kvs ''bbox''"
    by (simp add: bad_object_def)
  then have "\<exists>e. ObjectInfo_init P kvs = Inl e"
    unfolding ObjectInfo_init_def
    using bad_str_field [of P kvs "''class''"] bad_float_list_field [of P kvs "''bbox''"]
    by (cases "field kvs ''class'' (validate_str P)") auto
  with Some show ?thesis by (simp add: validate_model_def)
qed

lemma traverse_fails:
  assumes "a \<in> set xs" and "f a = Inl e"
  shows "\<exists>e'. traverse f xs = Inl e'"
  using assms by (induction xs) (auto split: sum.splits)

lemma bad_objects_list:
  "map_of kvs ''objects'' = Some (JList xs) \<Longrightarrow> bad_objects P kvs \<Longrightarrow> list_ex (bad_object P) xs"
  by (simp add: bad_objects_def)

lemma validate_objects_bad:
  assumes "bad_objects P kvs"
  shows "\<exists>e. validate_objects P kvs = Inl e"
proof (cases "map_of kvs ''objects''")
  case None
  with assms show ?thesis by (simp add: bad_objects_def)
next
  case (Some j)
  show ?thesis
  proof (cases j)
    case JNull
    with Some assms show ?thesis by (simp add: bad_objects_def)
  next
    case (JBool x)
    with Some show ?thesis by (simp add: validate_objects_def)
  next
    case (JNum x)
    with Some show ?thesis by (simp add: validate_objects_def)
  next
    case (JStr x)
    with Some show ?thesis by (simp add: validate_objects_def)
  next
    case (JList xs)
    with Some have m: "map_of kvs ''objects'' = Some (JList xs)" by simp
    from m assms have "list_ex (bad_object P) xs" by (rule bad_objects_list)
    then obtain a where a: "a \<in> set xs" "bad_object P a"
      unfolding list_ex_iff by blast
    from ObjectInfo_bad [OF a(2), of "''objects''"]
    obtain e where e: "validate_model P (ObjectInfo_init P) ''objects'' a = Inl e" ..
    from traverse_fails [where f = "validate_model P (ObjectInfo_init P) ''objects''", OF a(1) e]
    obtain e' where "traverse (validate_model P (ObjectInfo_init P) ''objects'') xs = Inl e'" ..
    with m show ?thesis by (simp add: validate_objects_def)
  next
    case (JObj x)
    with Some show ?thesis by (simp add: validate_objects_def)
  qed
qed

lemma DetectionCreate_init_bad:
  assumes "bad_str P kvs ''object_class'' \<or> bad_float P kvs ''confidence'' \<or> bad_bbox P kvs \<or>
           bad_objects P kvs \<or> bad_str P kvs ''gemini_analysis''"
  shows "\<exists>e. DetectionCreate_init P kvs = Inl e"
proof -
  let ?oc = "field kvs ''object_class'' (validate_str P)"
  let ?c = "field kvs ''confidence'' (validate_float P)"
  let ?b = "validate_bbox P kvs"
  let ?os = "validate_objects P kvs"
  let ?ga = "field kvs ''gemini_analysis'' (validate_str P)"
  from assms have "(\<exists>e. ?oc = Inl e) \<or> (\<exists>e. ?c = Inl e) \<or> (\<exists>e. ?b = Inl e) \<or>
      (\<exists>e. ?os = Inl e) \<or> (\<exists>e. ?ga = Inl e)"
    using bad_str_field [of P kvs] bad_float_field [of P kvs]
      validate_bbox_bad [of P kvs] validate_objects_bad [of P kvs]
    by blast
  then show ?thesis
    unfolding DetectionCreate_init_def
    by (cases ?oc; cases ?c; cases ?b; cases ?os; cases ?ga) auto
qed

lemma DetectionCreate_parse_bad:
  assumes "malformed P body"
  shows "\<exists>e. DetectionCreate_parse P body = Inl e"
proof (cases "as_mapping P body")
  case None
  then show ?thesis by (simp add: DetectionCreate_parse_def validate_model_def)
next
  case (Some kvs)
  with assms have "bad_str P kvs ''object_class'' \<or> bad_float P kvs ''confidence'' \<or>
      bad_bbox P kvs \<or> bad_objects P kvs \<or> bad_str P kvs ''gemini_analysis''"
    by (simp add: malformed_def)
  then obtain e where "DetectionCreate_init P kvs = Inl e"
    using DetectionCreate_init_bad by blast
  with Some show ?thesis by (simp add: DetectionCreate_parse_def validate_model_def)
qed

text \<open>
  Whatever the library converts, a string or float field bound to null, an array or
  an object is bad, and so is a missing one.
\<close>

lemma not_scalar_bad:
  assumes "map_of kvs k = None \<or> (\<exists>j. map_of kvs k = Some j \<and> not_scalar j)"
  shows "bad_str P kvs k" and "bad_float P kvs k"
  using assms by (auto simp: bad_str_def bad_float_def not_scalar_invalid)

lemma loose_body_parses: "DetectionCreate_parse P loose_body = Inr loose_payload"
  by (simp add: DetectionCreate_parse_def DetectionCreate_init_def validate_bbox_def
      validate_objects_def validate_model_def as_mapping_def
      BoundingBox_init_def ObjectInfo_init_def field_def loose_body_def loose_payload_def)

text \<open>
  With a library that converts an array of pairs, a \<^verbatim>\<open>bbox\<close> given as such an array
  validates; with one that converts nothing it is refused.
\<close>

lemma pairs_bbox:
  "validate_bbox lenient
     [(''bbox'', JList [JList [JStr ''x'', JNum 1], JList [JStr ''y'', JNum 2],
                        JList [JStr ''width'', JNum 3], JList [JStr ''height'', JNum 4]])]
     = Inr \<lparr>bb_x = 1, bb_y = 2, bb_width = 3, bb_height = 4\<rparr>"
  "bad_bbox strict
     [(''bbox'', JList [JList [JStr ''x'', JNum 1], JList [JStr ''y'', JNum 2],
                        JList [JStr ''width'', JNum 3], JList [JStr ''height'', JNum 4]])]"
  by (simp_all add: validate_bbox_def validate_model_def as_mapping_def lenient_def strict_def
      BoundingBox_init_def field_def bad_bbox_def)

text \<open>
  C7 (as amended). A body is refused with a validation error (422), the handler is not
  called and the session is as it was, when the body is not accepted as a mapping, or
  \<^verbatim>\<open>object_class\<close> or \<^verbatim>\<open>gemini_analysis\<close> is missing or not accepted as a string, or
  \<^verbatim>\<open>confidence\<close> is missing or not accepted as a float, or \<^verbatim>\<open>bbox\<close> is missing, is not
  accepted as a mapping, or has an \<^verbatim>\<open>x\<close>, \<^verbatim>\<open>y\<close>, \<^verbatim>\<open>width\<close> or \<^verbatim>\<open>height\<close> that is
  missing or not accepted as a float, or \<^verbatim>\<open>objects\<close> is neither null nor an array, or
  has an element that is not accepted as a mapping, that has a \<^verbatim>\<open>class\<close> that is
  missing or not accepted as a string, or that has a \<^verbatim>\<open>bbox\<close> that is missing, is not
  an array or holds a value not accepted as a float.
\<close>

theorem malformed_body_rejected:
  assumes "malformed P body"
  shows "\<exists>m. post_detections P E body db = (HTTPException 422 m, db)"
proof -
  from assms obtain e where "DetectionCreate_parse P body = Inl e"
    using DetectionCreate_parse_bad by blast
  then show ?thesis by (simp add: post_detections_def)
qed

theorem malformed_body_rejected_witness:
  "malformed strict
     (JObj [(''object_class'', JStr ''car''), (''confidence'', JStr ''high''),
            (''bbox'', JObj [(''x'', JNum 1), (''y'', JNum 2), (''width'', JNum 3), (''height'', JNum 4)]),
            (''objects'', JList [JObj [(''class_name'', JStr ''wheel''),
                                       (''bbox'', JList [JNum 1, JNum 2, JNum 3, JNum 4])]]),
            (''gemini_analysis'', JStr ''a red car'')]) \<and>
   (\<exists>m. post_detections strict (no_faults 0)
      (JObj [(''object_class'', JStr ''car''), (''confidence'', JStr ''high''),
            (''bbox'', JObj [(''x'', JNum 1), (''y'', JNum 2), (''width'', JNum 3), (''height'', JNum 4)]),
            (''objects'', JList [JObj [(''class_name'', JStr ''wheel''),
                                       (''bbox'', JList [JNum 1, JNum 2, JNum 3, JNum 4])]]),
            (''gemini_analysis'', JStr ''a red car'')])
      (get_db [car_row 1 0]) = (HTTPException 422 m, get_db [car_row 1 0]))"
proof -
  have h: "malformed strict
     (JObj [(''object_class'', JStr ''car''), (''confidence'', JStr ''high''),
            (''bbox'', JObj [(''x'', JNum 1), (''y'', JNum 2), (''width'', JNum 3), (''height'', JNum 4)]),
            (''objects'', JList [JObj [(''class_name'', JStr ''wheel''),
                                       (''bbox'', JList [JNum 1, JNum 2, JNum 3, JNum 4])]]),
            (''gemini_analysis'', JStr ''a red car'')])"
    by (simp add: malformed_def as_mapping_def bad_str_def bad_float_def strict_def)
  from malformed_body_rejected [OF h] h show ?thesis by blast
qed

text \<open>
  C7 as stated fails: a body whose \<^verbatim>\<open>object_class\<close> and \<^verbatim>\<open>gemini_analysis\<close> are empty
  strings and whose object has a \<^verbatim>\<open>bbox\<close> of three numbers validates (the fields are
  declared \<^verbatim>\<open>str\<close> and \<^verbatim>\<open>List[float]\<close>, with no constraint of length) and is stored.
\<close>

theorem loose_body_accepted:
  "post_detections strict (no_faults 0) loose_body (get_db []) =
     (Ok loose_payload,
      get_db [(new_Detection loose_payload)\<lparr>det_id := Some 1, det_timestamp := Some 0\<rparr>]) \<and>
   object_class loose_payload = [] \<and> gemini_analysis loose_payload = [] \<and>
   map (\<lambda>obj. length (obj_bbox obj)) (the (objects loose_payload)) = [3]"
  by (simp add: post_detections_def loose_body_parses create_detection_def session_defs
      insert_row_def new_Detection_def no_faults_def loose_payload_def Let_def)

end
